theory Spec2Isabelle
  imports Complex_Main "HOL-Library.Multiset"
begin

section \<open>Python values the convertors work on\<close>

text \<open>
  The exceptions the modelled code can raise. A function that may raise returns
  \<open>py_error + 'a\<close>, with \<open>Inl\<close> for the exception.
\<close>

datatype py_error = IndexError | TypeError | ValueError | AttributeError | RuntimeError

text \<open>
  Python list indexing: a negative index counts from the end; \<open>norm_index n i\<close> is the
  position an index \<open>i\<close> denotes in a list of length \<open>n\<close>, if any.
\<close>

definition norm_index :: "nat \<Rightarrow> int \<Rightarrow> nat option" where
  "norm_index n i =
     (let j = (if i < 0 then int n + i else i)
      in if 0 \<le> j \<and> j < int n then Some (nat j) else None)"

definition py_get :: "'a list \<Rightarrow> int \<Rightarrow> py_error + 'a" where
  "py_get xs i = (case norm_index (length xs) i of None \<Rightarrow> Inl IndexError | Some k \<Rightarrow> Inr (xs ! k))"

definition del_at :: "nat \<Rightarrow> 'a list \<Rightarrow> 'a list" where
  "del_at k xs = take k xs @ drop (Suc k) xs"

text \<open>\<open>list.pop(i)\<close> (the popped value is not used by the callers) and \<open>del xs[i]\<close>.\<close>

definition py_pop :: "'a list \<Rightarrow> int \<Rightarrow> py_error + 'a list" where
  "py_pop xs i = (case norm_index (length xs) i of None \<Rightarrow> Inl IndexError | Some k \<Rightarrow> Inr (del_at k xs))"

text \<open>\<open>list.insert(i, v)\<close>: the index is clamped into \<open>0..len\<close> after the negative shift.\<close>

definition py_insert :: "'a list \<Rightarrow> int \<Rightarrow> 'a \<Rightarrow> 'a list" where
  "py_insert xs i v =
     (let j = (if i < 0 then max 0 (int (length xs) + i) else min i (int (length xs)))
      in take (nat j) xs @ v # drop (nat j) xs)"

definition py_append :: "'a list \<Rightarrow> 'a \<Rightarrow> 'a list" where
  "py_append xs v = xs @ [v]"

section \<open>The object store\<close>






section \<open>InputOutputConvertor.reorder\<close>


text \<open>The same function on list values, for the callers that only use the result.\<close>

definition reorder_list :: "'a list \<Rightarrow> int option \<Rightarrow> int \<Rightarrow> 'a \<Rightarrow> py_error + 'a list" where
  "reorder_list original del_idx insert_idx insert_value =
     (case (case del_idx of
              None \<Rightarrow> Inr (original, insert_idx)
            | Some d \<Rightarrow>
                (case py_pop original d of
                   Inl e \<Rightarrow> Inl e
                 | Inr ys \<Rightarrow> Inr (ys, if d < insert_idx then insert_idx - 1 else insert_idx)))
      of Inl e \<Rightarrow> Inl e
       | Inr (ys, ins) \<Rightarrow>
           Inr (if ins < 0 then py_append ys insert_value else py_insert ys ins insert_value))"





section \<open>InputOutputConvertor: one input column, one output column\<close>

text \<open>\<open>headers.index(name)\<close>: the first position of the name, ValueError when absent.\<close>

fun index_of :: "'a list \<Rightarrow> 'a \<Rightarrow> nat option" where
  "index_of [] x = None"
| "index_of (y # ys) x = (if y = x then Some 0 else map_option Suc (index_of ys x))"

text \<open>
  The attributes \<open>preproc\<close> sets on the convertor. \<open>del_col = None\<close> is Python's None.
\<close>

record io_convertor =
  headers :: "string list"
  num_of_columns :: nat
  input_col_idx :: "int option"
  output_col_name :: string
  output_col_idx :: int
  overwrite :: bool
  del_col :: "int option"

text \<open>
  \<^verbatim>\<open>
  def preproc(self, context) -> bool:
      super().preproc(context)
      self.input_col_idx = context.get_param("input_col_idx")
      self.output_col_name = context.get_param("output_col_name")
      self.output_col_idx = context.get_param("output_col_idx")
      self.overwrite = context.get_param("overwrite")
      if self.output_col_name is None:
          self.output_col_name = self.headers[self.input_col_idx]
          self.del_col = self.input_col_idx
          if self.output_col_idx is None:
              self.output_col_idx = self.input_col_idx
      else:
          try:
              idx = self.headers.index(self.output_col_name)
              self.del_col = idx
          except ValueError:
              self.del_col = None
              self.overwrite = True
      if self.output_col_idx is None:
          self.output_col_idx = self.num_of_columns
      return True
  \<close>
  The arguments are the header row the base class read and the four values
  \<open>get_param\<close> returned (None for a parameter that was not given and has no default).
  \<open>self.headers[None]\<close> raises TypeError.
\<close>

definition preproc ::
  "string list \<Rightarrow> int option \<Rightarrow> string option \<Rightarrow> int option \<Rightarrow> bool \<Rightarrow> py_error + io_convertor" where
  "preproc hs p_input_col_idx p_output_col_name p_output_col_idx p_overwrite =
     (case (case p_output_col_name of
              None \<Rightarrow>
                (case p_input_col_idx of
                   None \<Rightarrow> Inl TypeError
                 | Some i \<Rightarrow>
                     (case py_get hs i of
                        Inl e \<Rightarrow> Inl e
                      | Inr name \<Rightarrow>
                          Inr (name, Some i,
                               (case p_output_col_idx of None \<Rightarrow> Some i | Some oi \<Rightarrow> Some oi),
                               p_overwrite)))
            | Some name \<Rightarrow>
                (case index_of hs name of
                   Some idx \<Rightarrow> Inr (name, Some (int idx), p_output_col_idx, p_overwrite)
                 | None \<Rightarrow> Inr (name, None, p_output_col_idx, True)))
      of Inl e \<Rightarrow> Inl e
       | Inr (name, dc, oi, ow) \<Rightarrow>
           Inr \<lparr> headers = hs, num_of_columns = length hs, input_col_idx = p_input_col_idx,
                 output_col_name = name,
                 output_col_idx = (case oi of None \<Rightarrow> int (length hs) | Some k \<Rightarrow> k),
                 overwrite = ow, del_col = dc \<rparr>)"

text \<open>
  \<open>process_header\<close> reorders the header row and appends it to the output.
\<close>

definition process_header :: "io_convertor \<Rightarrow> string list \<Rightarrow> string list list \<Rightarrow> py_error + string list list" where
  "process_header c hs out =
     (case reorder_list hs (del_col c) (output_col_idx c) (output_col_name c) of
        Inl e \<Rightarrow> Inl e
      | Inr hs' \<Rightarrow> Inr (out @ [hs']))"

text \<open>
  \<^verbatim>\<open>
  def process_record(self, rows, context):
      need_value = False
      if self.overwrite:
          need_value = True
      else:
          if self.del_col >= len(rows) or rows[self.del_col] == "":
              need_value = True
      if need_value:
          value = self.process_convertor(rows, context)
          if value is False:
              return
      else:
          value = rows[self.del_col]
      rows = self.reorder(original=rows, del_idx=self.del_col,
                          insert_idx=self.output_col_idx, insert_value=value)
      context.output(rows)
  \<close>
  \<open>process_convertor\<close> is the overridable value function; it returns \<open>None\<close> for Python's
  \<open>False\<close> (skip the row). Comparing \<open>None >= len(rows)\<close> raises TypeError. The result is
  the output collection after the call.
\<close>

definition need_value :: "io_convertor \<Rightarrow> string list \<Rightarrow> py_error + bool" where
  "need_value c rows =
     (if overwrite c then Inr True
      else (case del_col c of
              None \<Rightarrow> Inl TypeError
            | Some d \<Rightarrow>
                if int (length rows) \<le> d then Inr True
                else (case py_get rows d of Inl e \<Rightarrow> Inl e | Inr x \<Rightarrow> Inr (x = []))))"

definition process_record ::
  "io_convertor \<Rightarrow> (string list \<Rightarrow> py_error + string option) \<Rightarrow> string list \<Rightarrow> string list list
     \<Rightarrow> py_error + string list list" where
  "process_record c process_convertor rows out =
     (case need_value c rows of
        Inl e \<Rightarrow> Inl e
      | Inr nv \<Rightarrow>
          (case (if nv then process_convertor rows
                 else (case del_col c of
                         None \<Rightarrow> Inl TypeError
                       | Some d \<Rightarrow> map_sum id Some (py_get rows d)))
           of Inl e \<Rightarrow> Inl e
            | Inr None \<Rightarrow> Inr out
            | Inr (Some v) \<Rightarrow>
                (case reorder_list rows (del_col c) (output_col_idx c) v of
                   Inl e \<Rightarrow> Inl e
                 | Inr rows' \<Rightarrow> Inr (out @ [rows']))))"

text \<open>The default \<open>process_convertor\<close>: \<open>return rows[self.input_col_idx]\<close>.\<close>

definition process_convertor_default :: "io_convertor \<Rightarrow> string list \<Rightarrow> py_error + string option" where
  "process_convertor_default c rows =
     (case input_col_idx c of
        None \<Rightarrow> Inl TypeError
      | Some i \<Rightarrow> map_sum id Some (py_get rows i))"

section \<open>InputOutputsConvertor: one input column, several output columns\<close>

record ios_convertor =
  m_headers :: "string list"
  m_input_col_idx :: "int option"
  m_output_col_idx :: int
  output_col_names :: "string list"
  old_col_indexes :: "nat option list"
  del_col_indexes :: "nat option list"

text \<open>
  \<^verbatim>\<open>
  self.del_col_indexes = self.old_col_indexes[:]
  for i, del_index in enumerate(self.del_col_indexes):
      if del_index is None:
          continue
      if del_index < self.output_col_idx:
          self.output_col_idx -= 1
      for j, d in enumerate(self.del_col_indexes[i + 1:]):
          if d is not None and del_index < d:
              self.del_col_indexes[i + j + 1] -= 1
  \<close>
  The loop reads slot \<open>i\<close> of the list it is updating, so \<open>del_index\<close> is the slot's
  value after the earlier rounds; each round lowers the later slots that are greater.
  \<open>adjust_indexes\<close> is one round on the head of the list followed by the loop on the
  updated tail. An index is lowered only when it is greater than another index, so it
  stays a natural number.
\<close>

definition lower_after :: "nat \<Rightarrow> nat option \<Rightarrow> nat option" where
  "lower_after del_index d =
     (case d of None \<Rightarrow> None | Some e \<Rightarrow> if del_index < e then Some (e - 1) else Some e)"

function adjust_indexes :: "nat option list \<Rightarrow> int \<Rightarrow> nat option list \<times> int" where
  "adjust_indexes [] oi = ([], oi)"
| "adjust_indexes (None # ds) oi =
     (let (ds', oi') = adjust_indexes ds oi in (None # ds', oi'))"
| "adjust_indexes (Some del_index # ds) oi =
     (let (ds', oi') = adjust_indexes (map (lower_after del_index) ds)
                         (if int del_index < oi then oi - 1 else oi)
      in (Some del_index # ds', oi'))"
  by pat_completeness auto
termination
  by (relation "measure (\<lambda>(ds, oi). length ds)") auto

text \<open>
  \<^verbatim>\<open>
  def preproc(self, context) -> bool:
      super().preproc(context)
      self.old_col_indexes = []
      self.del_col_indexes = []
      self.input_col_idx = context.get_param("input_col_idx")
      self.output_col_idx = context.get_param("output_col_idx")
      self.output_col_names = context.get_param("output_col_names")
      if isinstance(self.output_col_names, str):
          self.output_col_names = [self.output_col_names]
      for output_col_name in self.output_col_names:
          if output_col_name in self.headers:
              idx = self.headers.index(output_col_name)
              self.old_col_indexes.append(idx)
          else:
              self.old_col_indexes.append(None)
      if self.output_col_idx is None or \
              self.output_col_idx >= len(self.headers):
          self.output_col_idx = len(self.headers)
      (the loop above)
      return True
  \<close>
  The arguments are the header row and the values \<open>get_param\<close> returned; the list of
  names is taken as a list (a single string is wrapped into one).
\<close>

definition preproc_multi :: "string list \<Rightarrow> int option \<Rightarrow> int option \<Rightarrow> string list \<Rightarrow> ios_convertor" where
  "preproc_multi hs p_input_col_idx p_output_col_idx p_output_col_names =
     (let olds = map (index_of hs) p_output_col_names;
          oi = (case p_output_col_idx of
                  None \<Rightarrow> int (length hs)
                | Some k \<Rightarrow> if int (length hs) \<le> k then int (length hs) else k);
          (dels, oi') = adjust_indexes olds oi
      in \<lparr> m_headers = hs, m_input_col_idx = p_input_col_idx, m_output_col_idx = oi',
           output_col_names = p_output_col_names, old_col_indexes = olds,
           del_col_indexes = dels \<rparr>)"

text \<open>
  \<^verbatim>\<open>
  def reorder(self, original, delete_idxs, insert_idx, insert_values):
      new_list = original[:]
      for delete_idx in delete_idxs:
          if delete_idx is None:
              continue
          del new_list[delete_idx]
      new_list = new_list[0:insert_idx] + insert_values \
          + new_list[insert_idx:]
      return new_list
  \<close>
  \<open>slice_pos\<close> is where a slice bound lands in a list of length \<open>n\<close>: a negative bound
  counts from the end, and the bound is clamped into \<open>0..n\<close>.
\<close>

fun delete_all :: "'a list \<Rightarrow> nat option list \<Rightarrow> py_error + 'a list" where
  "delete_all new_list [] = Inr new_list"
| "delete_all new_list (None # ds) = delete_all new_list ds"
| "delete_all new_list (Some delete_idx # ds) =
     (if delete_idx < length new_list then delete_all (del_at delete_idx new_list) ds
      else Inl IndexError)"

definition slice_pos :: "nat \<Rightarrow> int \<Rightarrow> nat" where
  "slice_pos n k = (if k < 0 then nat (max 0 (int n + k)) else min (nat k) n)"

definition reorder_multi :: "'a list \<Rightarrow> nat option list \<Rightarrow> int \<Rightarrow> 'a list \<Rightarrow> py_error + 'a list" where
  "reorder_multi original delete_idxs insert_idx insert_values =
     (case delete_all original delete_idxs of
        Inl e \<Rightarrow> Inl e
      | Inr new_list \<Rightarrow>
          Inr (take (slice_pos (length new_list) insert_idx) new_list @ insert_values
               @ drop (slice_pos (length new_list) insert_idx) new_list))"

definition process_header_multi :: "ios_convertor \<Rightarrow> string list \<Rightarrow> string list list \<Rightarrow> py_error + string list list" where
  "process_header_multi c hs out =
     (case reorder_multi hs (del_col_indexes c) (m_output_col_idx c) (output_col_names c) of
        Inl e \<Rightarrow> Inl e
      | Inr hs' \<Rightarrow> Inr (out @ [hs']))"

text \<open>
  \<^verbatim>\<open>
  def process_record(self, rows, context):
      old_values = []
      for idx in self.old_col_indexes:
          if idx is None:
              old_values.append("")
          else:
              old_values.append(rows[idx])
      if context.get_param("overwrite"):
          new_values = self.process_convertor(rows, context)
      else:
          values = None
          new_values = []
          for i, old_value in enumerate(old_values):
              if old_value == "":
                  if values is None:
                      values = self.process_convertor(rows, context)
                  new_values.append(values[i])
              else:
                  new_values.append(old_value)
      rows = self.reorder(original=rows, delete_idxs=self.del_col_indexes,
                          insert_idx=self.output_col_idx, insert_values=new_values)
      context.output(rows)
  \<close>
  \<open>process_convertor\<close> is the overridable function that computes the whole output
  vector. The model counts its invocations: \<open>fill_new_values\<close> is the loop of the
  else-branch, with the loop variables \<open>values\<close> (None until the first call), the
  number of calls made and \<open>new_values\<close>.
\<close>

fun get_old_values :: "string list \<Rightarrow> nat option list \<Rightarrow> py_error + string list" where
  "get_old_values rows [] = Inr []"
| "get_old_values rows (None # idxs) = map_sum id ((#) []) (get_old_values rows idxs)"
| "get_old_values rows (Some idx # idxs) =
     (if idx < length rows then map_sum id ((#) (rows ! idx)) (get_old_values rows idxs)
      else Inl IndexError)"

fun fill_new_values ::
  "(string list \<Rightarrow> py_error + string list) \<Rightarrow> string list \<Rightarrow> nat \<Rightarrow> string list
     \<Rightarrow> string list option \<Rightarrow> nat \<Rightarrow> string list
     \<Rightarrow> py_error + (string list \<times> string list option \<times> nat)" where
  "fill_new_values process_convertor rows i [] vals calls new_values =
     Inr (new_values, vals, calls)"
| "fill_new_values process_convertor rows i (old_value # olds) vals calls new_values =
     (if old_value = [] then
        (case (case vals of
                 None \<Rightarrow> map_sum id (\<lambda>v. (v, Suc calls)) (process_convertor rows)
               | Some v \<Rightarrow> Inr (v, calls))
         of Inl e \<Rightarrow> Inl e
          | Inr (v, calls') \<Rightarrow>
              (case py_get v (int i) of
                 Inl e \<Rightarrow> Inl e
               | Inr x \<Rightarrow>
                   fill_new_values process_convertor rows (Suc i) olds (Some v) calls'
                     (new_values @ [x])))
      else fill_new_values process_convertor rows (Suc i) olds vals calls
             (new_values @ [old_value]))"

text \<open>
  The result of \<open>process_record\<close> is the output collection and the number of times
  \<open>process_convertor\<close> was invoked for the row.
\<close>

definition process_record_multi ::
  "ios_convertor \<Rightarrow> bool \<Rightarrow> (string list \<Rightarrow> py_error + string list) \<Rightarrow> string list
     \<Rightarrow> string list list \<Rightarrow> py_error + (string list list \<times> nat)" where
  "process_record_multi c p_overwrite process_convertor rows out =
     (case get_old_values rows (old_col_indexes c) of
        Inl e \<Rightarrow> Inl e
      | Inr old_values \<Rightarrow>
          (case (if p_overwrite then map_sum id (\<lambda>v. (v, 1)) (process_convertor rows)
                 else map_sum id (\<lambda>(nv, vals, calls). (nv, calls))
                        (fill_new_values process_convertor rows 0 old_values None 0 []))
           of Inl e \<Rightarrow> Inl e
            | Inr (new_values, calls) \<Rightarrow>
                (case reorder_multi rows (del_col_indexes c) (m_output_col_idx c) new_values of
                   Inl e \<Rightarrow> Inl e
                 | Inr rows' \<Rightarrow> Inr (out @ [rows'], calls))))"

text \<open>
  The middle part of \<open>process_record\<close> by itself: the new values and the number of
  invocations, computed from the old values.
\<close>

definition new_values_for ::
  "bool \<Rightarrow> (string list \<Rightarrow> py_error + string list) \<Rightarrow> string list \<Rightarrow> string list
     \<Rightarrow> py_error + (string list \<times> nat)" where
  "new_values_for p_overwrite process_convertor rows old_values =
     (if p_overwrite then map_sum id (\<lambda>v. (v, 1)) (process_convertor rows)
      else map_sum id (\<lambda>(nv, vals, calls). (nv, calls))
             (fill_new_values process_convertor rows 0 old_values None 0 []))"

text \<open>
  The vector the specification describes for a row whose old values are \<open>olds\<close>, when
  the computed vector is \<open>v\<close>: the computed component in an empty slot, the old value
  elsewhere (\<open>i\<close> is the position of the first slot).
\<close>

fun merged :: "nat \<Rightarrow> string list \<Rightarrow> string list \<Rightarrow> string list" where
  "merged i [] v = []"
| "merged i (old # olds) v = (if old = [] then v ! i else old) # merged (Suc i) olds v"

text \<open>
  The specification's effective delete index of slot \<open>i\<close>: the original index minus the
  number of earlier slots whose original index was smaller. \<open>low del_index\<close> is what one
  round of the loop does to a later index, \<open>clamp_output_idx\<close> the insertion index
  \<open>preproc\<close> starts from.
\<close>

definition low :: "nat \<Rightarrow> nat \<Rightarrow> nat" where
  "low d e = (if d < e then e - 1 else e)"

definition effective_index :: "nat list \<Rightarrow> nat \<Rightarrow> nat" where
  "effective_index olds i = olds ! i - length (filter (\<lambda>e. e < olds ! i) (take i olds))"

definition clamp_output_idx :: "nat \<Rightarrow> int option \<Rightarrow> int" where
  "clamp_output_idx n p = (case p of None \<Rightarrow> int n | Some k \<Rightarrow> if int n \<le> k then int n else k)"

section \<open>Parameters and the execution context\<close>

text \<open>
  Parameter values are dynamically typed. A parameter descriptor carries its name, its
  class (which decides how \<open>get_value\<close> works), the required flag and the default value.
  \<open>ParamSet\<close> keeps the descriptors in a list; \<open>__contains__\<close> answers with the list of
  descriptors of that name (true when non-empty), \<open>__getitem__\<close> with the descriptor.
\<close>

datatype pyval = PNone | PBool bool | PInt int | PStr string | PList "pyval list"

datatype param_class =
    TextParam | StringParam | StringListParam | IntParam | EnumsParam | BooleanParam
  | CollectionParam | AttributeParam | AttributeListParam | InputAttributeParam
  | InputAttributeListParam | OutputAttributeParam | OutputAttributeListParam | DictParam

record param =
  param_name :: string
  param_class :: param_class
  param_required :: bool
  param_default_value :: pyval

definition contains :: "param list \<Rightarrow> string \<Rightarrow> bool" where
  "contains declared item = (filter (\<lambda>p. param_name p = item) declared \<noteq> [])"

definition getitem :: "param list \<Rightarrow> string \<Rightarrow> param option" where
  "getitem declared item = find (\<lambda>p. param_name p = item) declared"

text \<open>
  What the constructor and \<open>get_param\<close> can touch outside the context object: the log
  and the input collection, of which only the number of rows read so far matters here.
\<close>

datatype log_entry = LogWarning string | LogError string

record world =
  log_entries :: "log_entry list"
  input_rows_read :: nat

record Context =
  declared_params :: "param list"
  convertor_params :: "(string \<times> pyval) list"

text \<open>
  \<^verbatim>\<open>
  def __init__(self, convertor, convertor_params, input, output, proxy=None):
      ...
      convertor_meta = self._convertor.meta()
      declared_params = convertor_meta.params
      convertor_key = convertor_meta.key
      for key in self._convertor_params.keys():
          if key in declared_params:
              continue
          msg = ...
          logger.warning(msg)
      for name in declared_params.keys():
          param = declared_params[name]
          if param.required and name not in self._convertor_params:
              msg = ...
              logger.error(msg)
              raise ValueError("Param '{}' is required.".format(name))
  \<close>
  The parameter dictionary is an association list (Python dictionaries keep insertion
  order); a key may be bound to None.
\<close>

definition warn_unknown :: "param list \<Rightarrow> (string \<times> pyval) list \<Rightarrow> log_entry list" where
  "warn_unknown declared ps = map LogWarning (filter (\<lambda>key. \<not> contains declared key) (map fst ps))"

definition first_missing :: "param list \<Rightarrow> (string \<times> pyval) list \<Rightarrow> param option" where
  "first_missing declared ps =
     find (\<lambda>p. param_required p \<and> param_name p \<notin> set (map fst ps)) declared"

definition Context_init ::
  "param list \<Rightarrow> (string \<times> pyval) list \<Rightarrow> world \<Rightarrow> (py_error + Context) \<times> world" where
  "Context_init declared ps w =
     (let w1 = w\<lparr> log_entries := log_entries w @ warn_unknown declared ps \<rparr>
      in case first_missing declared ps of
           Some p \<Rightarrow> (Inl ValueError, w1\<lparr> log_entries := log_entries w1 @ [LogError (param_name p)] \<rparr>)
         | None \<Rightarrow> (Inr \<lparr> declared_params = declared, convertor_params = ps \<rparr>, w1))"

text \<open>
  \<^verbatim>\<open>
  def get_value(self, value, context):          # Param, and the attribute parameters
      if value is None:
          return self.default_value
      return self.parse_value(value)            # or self.get_column_number(s)(...)

  def get_value(self, value, context):          # CollectionParam
      return context.get_proxy(value)

  def get_proxy(self, value):                   # Context
      return self._proxy(value)
  \<close>
  No method of \<open>Context\<close> sets \<open>_proxy\<close>, so \<open>get_proxy\<close> raises AttributeError. The
  conversion each class applies to a value that is not None (\<open>parse_value\<close>,
  \<open>get_column_number\<close>) is the parameter \<open>conv\<close>.
\<close>

definition get_value :: "(param \<Rightarrow> pyval \<Rightarrow> py_error + pyval) \<Rightarrow> param \<Rightarrow> pyval \<Rightarrow> py_error + pyval" where
  "get_value conv p v =
     (if param_class p = CollectionParam then Inl AttributeError
      else if v = PNone then Inr (param_default_value p)
      else conv p v)"

text \<open>
  \<^verbatim>\<open>
  def get_param(self, name):
      convertor_meta = self._convertor.meta()
      declared_params = convertor_meta.params
      convertor_key = convertor_meta.key
      if name not in declared_params:
          msg = ...
          logger.error(msg)
          raise ValueError(msg)
      param = declared_params[name]
      if param.required and name not in self._convertor_params:
          logger.error(...)
          msg = ...
          raise ValueError(msg)
      val = self._convertor_params.get(name)
      return param.get_value(val, self)
  \<close>
\<close>

definition get_param ::
  "(param \<Rightarrow> pyval \<Rightarrow> py_error + pyval) \<Rightarrow> Context \<Rightarrow> string \<Rightarrow> world \<Rightarrow> (py_error + pyval) \<times> world" where
  "get_param conv ctx name w =
     (if \<not> contains (declared_params ctx) name
      then (Inl ValueError, w\<lparr> log_entries := log_entries w @ [LogError name] \<rparr>)
      else (case getitem (declared_params ctx) name of
              None \<Rightarrow> (Inl AttributeError, w)
            | Some p \<Rightarrow>
                if param_required p \<and> name \<notin> set (map fst (convertor_params ctx))
                then (Inl ValueError, w\<lparr> log_entries := log_entries w @ [LogError name] \<rparr>)
                else (get_value conv p
                        (case map_of (convertor_params ctx) name of None \<Rightarrow> PNone | Some v \<Rightarrow> v),
                      w)))"

section \<open>Table.convert\<close>

text \<open>
  The files on disk are an association list from paths to the rows written. A Python
  variable that may hold None, a path or an output collection is a \<open>pyobj\<close>.
  \<^verbatim>\<open>
  def convert(self, convertor, params, output=None):
      self.open()
      if output is not None:
          csv_out = output
      else:
          csv_out = NamedTemporaryFile(delete=False, prefix='table_').name
      input = self._reader
      output = CsvOutputCollection(csv_out)
      conv = convertor_find_by(convertor)
      if conv is None:
          self.useExtraConvertors()
          conv = convertor_find_by(convertor)
      if conv is None:
          raise ValueError(...)
      with Context(convertor=conv, convertor_params=params,
                   input=input, output=output) as context:
          try:
              conv().process(context)
              logger.debug(...)
              new_table = Table(csv_out, is_tempfile=(output is None),
                                skip_cleaning=True)
              return new_table
          except RuntimeError as e:
              if output is None:
                  os.remove(csv_out)
                  logger.debug(...)
              else:
                  logger.debug(...)
              raise e
  \<close>
  \<open>tmp\<close> is the name \<open>NamedTemporaryFile\<close> picks (it creates the empty file);
  \<open>conv_found\<close> tells whether the convertor is registered, \<open>context_error\<close> is the
  exception of the \<open>Context\<close> constructor if it raises, and \<open>process\<close> is what the
  convertor does: the rows it writes and the exception it ends with, if any. Entering
  the context opens the output file for writing, which creates or truncates it.
\<close>

datatype pyobj = PyNone | PathLike string | CsvOutputCollection string

record table =
  table_file :: string
  is_tempfile :: bool

type_synonym files = "(string \<times> string list list) list"

definition file_exists :: "files \<Rightarrow> string \<Rightarrow> bool" where
  "file_exists fs path = (path \<in> set (map fst fs))"

definition open_w :: "files \<Rightarrow> string \<Rightarrow> files" where
  "open_w fs path = (path, []) # filter (\<lambda>(p, rows). p \<noteq> path) fs"

definition write_rows :: "files \<Rightarrow> string \<Rightarrow> string list list \<Rightarrow> files" where
  "write_rows fs path new_rows = map (\<lambda>(p, rows). if p = path then (p, rows @ new_rows) else (p, rows)) fs"

definition os_remove :: "files \<Rightarrow> string \<Rightarrow> files" where
  "os_remove fs path = filter (\<lambda>(p, rows). p \<noteq> path) fs"

definition convert ::
  "files \<Rightarrow> string \<Rightarrow> bool \<Rightarrow> py_error option \<Rightarrow> string list list \<times> py_error option \<Rightarrow> pyobj
     \<Rightarrow> (py_error + table) \<times> files" where
  "convert fs tmp conv_found context_error process output =
     (let (csv_out, fs1) = (case output of
                              PathLike path \<Rightarrow> (path, fs)
                            | _ \<Rightarrow> (tmp, open_w fs tmp));
          output = CsvOutputCollection csv_out
      in if \<not> conv_found then (Inl ValueError, fs1)
         else (case context_error of
                 Some e \<Rightarrow> (Inl e, fs1)
               | None \<Rightarrow>
                   (let fs2 = write_rows (open_w fs1 csv_out) csv_out (fst process)
                    in case snd process of
                         None \<Rightarrow>
                           (Inr \<lparr> table_file = csv_out, is_tempfile = (output = PyNone) \<rparr>, fs2)
                       | Some e \<Rightarrow>
                           if e = RuntimeError
                           then (Inl e, if output = PyNone then os_remove fs2 csv_out else fs2)
                           else (Inl e, fs2))))"

section \<open>The date extractor: normalisation and era years\<close>

text \<open>
  A Python string is a list of Unicode code points. \<open>int\<close> and the pattern \<open>\d\<close> accept
  the decimal digits of every script: they come in blocks of ten consecutive code
  points, and \<open>digit_zeros\<close> lists the code point of the digit zero of each block
  (Unicode 14.0; 48 is the ASCII zero).
\<close>

type_synonym ustring = "nat list"

definition digit_zeros :: "nat list" where
  "digit_zeros = [
     48, 1632, 1776, 1984, 2406, 2534, 2662, 2790, 2918, 3046,
     3174, 3302, 3430, 3558, 3664, 3792, 3872, 4160, 4240, 6112,
     6160, 6470, 6608, 6784, 6800, 6992, 7088, 7232, 7248, 42528,
     43216, 43264, 43472, 43504, 43600, 44016, 65296, 66720, 68912, 69734,
     69872, 69942, 70096, 70384, 70736, 70864, 71248, 71360, 71472, 71904,
     72016, 72784, 73040, 73120, 92768, 92864, 93008, 120782, 120792, 120802,
     120812, 120822, 123200, 123632, 125264, 130032
   ]"

definition digit_zero :: "nat \<Rightarrow> nat option" where
  "digit_zero c = find (\<lambda>z. z \<le> c \<and> c < z + 10) digit_zeros"

definition is_digit :: "nat \<Rightarrow> bool" where
  "is_digit c = (digit_zero c \<noteq> None)"

definition digit_value :: "nat \<Rightarrow> nat" where
  "digit_value c = (case digit_zero c of None \<Rightarrow> 0 | Some z \<Rightarrow> c - z)"

text \<open>The characters \<open>str.strip()\<close> removes, and those \<open>int()\<close> skips around a number.\<close>

definition is_space :: "nat \<Rightarrow> bool" where
  "is_space c = (c \<in> set ([9, 10, 11, 12, 13, 28, 29, 30, 31, 32, 133, 160, 5760]
                   @ [8192 ..< 8203] @ [8232, 8233, 8239, 8287, 12288]))"

definition is_int_space :: "nat \<Rightarrow> bool" where
  "is_int_space c = (is_space c \<and> \<not> (28 \<le> c \<and> c \<le> 31))"

definition strip :: "ustring \<Rightarrow> ustring" where
  "strip s = rev (dropWhile is_space (rev (dropWhile is_space s)))"

text \<open>
  \<open>s.replace(old, new)\<close>: the occurrences of \<open>old\<close> are replaced from left to right,
  without overlap; an empty \<open>old\<close> matches before every character and at the end.
\<close>

function replace :: "ustring \<Rightarrow> ustring \<Rightarrow> ustring \<Rightarrow> ustring" where
  "replace old new s =
     (if old = [] then new @ concat (map (\<lambda>c. c # new) s)
      else if s = [] then []
      else if take (length old) s = old then new @ replace old new (drop (length old) s)
      else hd s # replace old new (tl s))"
  by pat_completeness auto
termination
  by (relation "measure (\<lambda>(old, new, s). length s)") auto

declare replace.simps [simp del]

text \<open>\<open>k in s\<close> for strings: \<open>k\<close> occurs in \<open>s\<close> as a contiguous substring.\<close>

fun is_in :: "ustring \<Rightarrow> ustring \<Rightarrow> bool" where
  "is_in k [] = (k = [])"
| "is_in k (c # cs) = (take (length k) (c # cs) = k \<or> is_in k cs)"

text \<open>
  \<open>int(s)\<close> for a string: optional white space around an optional sign and decimal
  digits, where single underscores may separate digits; ValueError otherwise.
\<close>

fun int_body :: "nat \<Rightarrow> bool \<Rightarrow> ustring \<Rightarrow> nat option" where
  "int_body acc after_digit [] = (if after_digit then Some acc else None)"
| "int_body acc after_digit (c # cs) =
     (if is_digit c then int_body (10 * acc + digit_value c) True cs
      else if c = 95 \<and> after_digit then int_body acc False cs
      else None)"

definition py_int :: "ustring \<Rightarrow> py_error + int" where
  "py_int s =
     (let t = rev (dropWhile is_int_space (rev (dropWhile is_int_space s)));
          (neg, body) = (case t of
                           c # cs \<Rightarrow> if c = 45 then (True, cs) else if c = 43 then (False, cs) else (False, t)
                         | [] \<Rightarrow> (False, []))
      in case int_body 0 False body of
           None \<Rightarrow> Inl ValueError
         | Some n \<Rightarrow> Inr (if neg then - int n else int n))"

text \<open>
  \<^verbatim>\<open>
  def is_integer(s):
      s = s.strip()
      try:
          int(s)
      except ValueError:
          return False
      else:
          return True
  \<close>
\<close>

definition is_integer :: "ustring \<Rightarrow> bool" where
  "is_integer s = (case py_int (strip s) of Inl e \<Rightarrow> False | Inr n \<Rightarrow> True)"

text \<open>
  \<open>convert_dic\<close>, in the order of the dictionary literal (a dictionary is walked in
  insertion order; the second \<open>"May"\<close> entry of the literal rebinds the first). The
  first entries map the full-width digits, then come the full-width punctuation and era
  letters, the dotted era letters, the era names, the first-year forms, the English month names
  and the dashed units.
\<close>

definition convert_dic :: "(ustring \<times> ustring) list" where
  "convert_dic = [
    ([65296], [48]),
    ([65297], [49]),
    ([65298], [50]),
    ([65299], [51]),
    ([65300], [52]),
    ([65301], [53]),
    ([65302], [54]),
    ([65303], [55]),
    ([65304], [56]),
    ([65305], [57]),
    ([65294], [46]),
    ([65288], [40]),
    ([65289], [41]),
    ([65330], [82]),
    ([65320], [72]),
    ([65331], [83]),
    ([65332], [84]),
    ([65325], [77]),
    ([82, 46], [82]),
    ([72, 46], [72]),
    ([83, 46], [83]),
    ([84, 46], [84]),
    ([77, 46], [77]),
    ([20196, 21644], [82]),
    ([24179, 25104], [72]),
    ([26157, 21644], [83]),
    ([22823, 27491], [84]),
    ([26126, 27835], [77]),
    ([20803, 24180], [49, 24180]),
    ([20803, 46], [49, 46]),
    ([74, 97, 110, 117, 97, 114, 121], [49]),
    ([70, 101, 98, 114, 117, 97, 114, 121], [50]),
    ([77, 97, 114, 99, 104], [51]),
    ([65, 112, 114, 105, 108], [52]),
    ([77, 97, 121], [53]),
    ([74, 117, 110, 101], [54]),
    ([74, 117, 108, 121], [55]),
    ([65, 117, 103, 117, 115, 116], [56]),
    ([83, 101, 112, 116, 101, 109, 98, 101, 114], [57]),
    ([79, 99, 116, 111, 98, 101, 114], [49, 48]),
    ([78, 111, 118, 101, 109, 98, 101, 114], [49, 49]),
    ([68, 101, 99, 101, 109, 98, 101, 114], [49, 50]),
    ([74, 97, 110], [49]),
    ([70, 101, 98], [50]),
    ([77, 97, 114], [51]),
    ([65, 112, 114], [52]),
    ([74, 117, 110], [54]),
    ([74, 117, 108], [55]),
    ([65, 117, 103], [56]),
    ([83, 101, 112], [57]),
    ([79, 99, 116], [49, 48]),
    ([78, 111, 118], [49, 49]),
    ([68, 101, 99], [49, 50]),
    ([45, 24180], [24180]),
    ([45, 26376], [26376]),
    ([45, 26085], [26085])
  ]"

text \<open>
  \<open>year_dic\<close>: the era characters (Reiwa, Heisei, Showa, Taisho, Meiji as kanji
  20196, 24179, 26157, 22823, 26126, then as the letters R, H, S, T, M) with the base
  years.
\<close>

definition year_dic :: "(ustring \<times> int) list" where
  "year_dic = [
    ([20196], 2018), ([24179], 1988), ([26157], 1925), ([22823], 1911), ([26126], 1867),
    ([82], 2018), ([72], 1988), ([83], 1925), ([84], 1911), ([77], 1867)
  ]"

text \<open>
  \<^verbatim>\<open>
  def convert_string(s):
      for k, v in convert_dic.items():
          s = s.replace(k, v)
      return s
  \<close>
\<close>

definition convert_string :: "ustring \<Rightarrow> ustring" where
  "convert_string s = fold (\<lambda>(k, v) s. replace k v s) convert_dic s"

text \<open>
  \<^verbatim>\<open>
  def convert_year(y):
      for k, v in year_dic.items():
          if k in str(y):
              return v + int(
                  y.replace(k, "").replace("nendo", "").replace(
                      "nen", "").replace("gan", "1")
              )
      return (
          int(y.replace("nendo", "").replace("nen", ""))
          if is_integer(y.replace("nendo", "").replace("nen", ""))
          else str(y)
      )
  \<close>
  where nen is the character 24180 (year), nendo the characters 24180, 24230 (fiscal
  year) and gan the character 20803 (first year of an era). The result is an integer
  or, for a string that is no number, the string itself.
\<close>

datatype year_value = YearInt int | YearStr ustring

definition strip_year_units :: "ustring \<Rightarrow> ustring" where
  "strip_year_units y = replace [24180] [] (replace [24180, 24230] [] y)"

fun convert_year_from :: "(ustring \<times> int) list \<Rightarrow> ustring \<Rightarrow> py_error + year_value" where
  "convert_year_from [] y =
     (if is_integer (strip_year_units y) then map_sum id YearInt (py_int (strip_year_units y))
      else Inr (YearStr y))"
| "convert_year_from ((k, v) # dic) y =
     (if is_in k y
      then map_sum id (\<lambda>n. YearInt (v + n))
             (py_int (replace [20803] [49] (strip_year_units (replace k [] y))))
      else convert_year_from dic y)"

definition convert_year :: "ustring \<Rightarrow> py_error + year_value" where
  "convert_year y = convert_year_from year_dic y"

text \<open>
  The era-relative year strings the extractor's grammar recognises as a year: an era
  character followed by one or two digits or by a space and a digit (\<open>year_era\<close>), or by
  the first-year character (\<open>year_era_first\<close>), optionally followed by the year or the
  fiscal-year unit (\<open>year_jp\<close>). \<open>era_year_number\<close> is the era-relative year such a
  string names.
\<close>

definition era_number_part :: "ustring \<Rightarrow> bool" where
  "era_number_part ds =
     (case ds of
        [d] \<Rightarrow> is_digit d \<or> d = 20803
      | [c, d] \<Rightarrow> (is_digit c \<or> c = 32) \<and> is_digit d
      | _ \<Rightarrow> False)"

definition era_year_number :: "ustring \<Rightarrow> int" where
  "era_year_number ds =
     (case ds of
        [d] \<Rightarrow> if d = 20803 then 1 else int (digit_value d)
      | [c, d] \<Rightarrow> (if c = 32 then 0 else 10 * int (digit_value c)) + int (digit_value d)
      | _ \<Rightarrow> 0)"

definition year_unit :: "ustring \<Rightarrow> bool" where
  "year_unit u = (u = [] \<or> u = [24180] \<or> u = [24180, 24230])"

section \<open>Properties of reorder\<close>

lemma length_del_at: "k < length xs \<Longrightarrow> length (del_at k xs) = length xs - 1"
  by (simp add: del_at_def)






section \<open>Properties of InputOutputConvertor\<close>

lemma index_of_None: "index_of xs x = None \<longleftrightarrow> x \<notin> set xs"
  by (induction xs) auto

lemma index_of_Some: "index_of xs x = Some k \<Longrightarrow> k < length xs \<and> xs ! k = x"
  by (induction xs arbitrary: k) (auto split: if_splits)

lemma index_of_mem: "index_of xs x = Some k \<Longrightarrow> x \<in> set xs"
  using index_of_None [of xs x] by auto

lemma preproc_del_col_overwrite:
  assumes "preproc hs p_in p_name p_out p_ow = Inr c"
  shows "del_col c = None \<longrightarrow> overwrite c"
  using assms
  by (auto simp: preproc_def split: option.splits sum.splits)

text \<open>
  C3 (as amended). When the requested output column name is not among the headers,
  \<open>preproc\<close> succeeds with no column to delete and the overwrite flag forced to True,
  whatever flag was given. Per row, when the convertor is not overwriting and the
  destination column holds a non-empty value, the value function is not consulted: the
  output row is the row reordered with the existing value.
\<close>

theorem preproc_new_name_forces_overwrite:
  "(name \<notin> set hs \<longrightarrow>
      (\<exists>c. preproc hs p_in (Some name) p_out p_ow = Inr c \<and> overwrite c \<and> del_col c = None))
   \<and> (\<not> overwrite c \<and> del_col c = Some d \<and> d < int (length rows) \<and> py_get rows d = Inr x \<and> x \<noteq> []
        \<longrightarrow> process_record c pc rows out =
              (case reorder_list rows (Some d) (output_col_idx c) x of
                 Inl e \<Rightarrow> Inl e
               | Inr rows' \<Rightarrow> Inr (out @ [rows'])))"
  by (auto simp: preproc_def process_record_def need_value_def index_of_None
      split: option.splits sum.splits dest: index_of_mem)

theorem preproc_new_name_forces_overwrite_witness:
  "(\<exists>c. preproc [''a'', ''b''] (Some 0) (Some ''c'') None False = Inr c \<and> overwrite c \<and> del_col c = None)
   \<and> process_record
        \<lparr> headers = [''a'', ''b''], num_of_columns = 2, input_col_idx = Some 0,
          output_col_name = ''b'', output_col_idx = 2, overwrite = False, del_col = Some 1 \<rparr>
        (\<lambda>rows. Inr (Some ''new'')) [''x'', ''y''] [] = Inr [[''x'', ''y'']]"
  using preproc_new_name_forces_overwrite [of "''c''" "[''a'', ''b'']" "Some 0" None False
      "\<lparr> headers = [''a'', ''b''], num_of_columns = 2, input_col_idx = Some 0,
          output_col_name = ''b'', output_col_idx = 2, overwrite = False, del_col = Some 1 \<rparr>"
      1 "[''x'', ''y'']" "''y''" "\<lambda>rows. Inr (Some ''new'')" "[]"]
  by (simp add: py_get_def norm_index_def reorder_list_def py_pop_def py_insert_def del_at_def)

text \<open>
  The claim as the specification words it (overwrite forced off for a brand-new name)
  fails: given \<open>overwrite = False\<close> and a new name, the flag comes out True.
\<close>

theorem preproc_new_name_overwrite_counterexample:
  "preproc [''a'', ''b''] (Some 0) (Some ''c'') None False =
     Inr \<lparr> headers = [''a'', ''b''], num_of_columns = 2, input_col_idx = Some 0,
           output_col_name = ''c'', output_col_idx = 2, overwrite = True, del_col = None \<rparr>"
  by (simp add: preproc_def)

text \<open>
  C10. Whenever \<open>preproc\<close> returns, \<open>del_col\<close> is None only if the overwrite flag is
  True; so a convertor that is not overwriting has an integer \<open>del_col\<close>, and
  \<open>process_record\<close> decides whether a value is needed without comparing or indexing with
  None (the TypeError of the model).
\<close>

theorem preproc_del_col_invariant:
  assumes "preproc hs p_in p_name p_out p_ow = Inr c"
  shows "(del_col c = None \<longrightarrow> overwrite c)
         \<and> (\<not> overwrite c \<longrightarrow> (\<exists>d. del_col c = Some d))
         \<and> need_value c rows \<noteq> Inl TypeError
         \<and> ((\<forall>r. pc r \<noteq> Inl TypeError) \<longrightarrow> process_record c pc rows out \<noteq> Inl TypeError)"
proof -
  have inv: "del_col c = None \<longrightarrow> overwrite c"
    using assms by (rule preproc_del_col_overwrite)
  have nv: "need_value c rows \<noteq> Inl TypeError"
    using inv by (auto simp: need_value_def py_get_def split: option.splits)
  have ro: "reorder_list rows dc oi v \<noteq> Inl TypeError" for dc oi v
    by (auto simp: reorder_list_def py_pop_def split: option.splits sum.splits)
  have pr: "process_record c pc rows out \<noteq> Inl TypeError" if pc: "\<forall>r. pc r \<noteq> Inl TypeError"
  proof (cases "overwrite c")
    case True
    then have "need_value c rows = Inr True"
      by (simp add: need_value_def)
    then show ?thesis
      using pc ro by (auto simp: process_record_def split: option.splits sum.splits)
  next
    case False
    with inv obtain d where d: "del_col c = Some d"
      by auto
    show ?thesis
      using pc ro nv d
      by (auto simp: process_record_def py_get_def split: option.splits sum.splits)
  qed
  show ?thesis
    using inv nv pr by auto
qed

theorem preproc_del_col_invariant_witness:
  "preproc [''a'', ''b''] (Some 0) (Some ''c'') None False \<noteq> Inl TypeError
   \<and> process_record
        \<lparr> headers = [''a'', ''b''], num_of_columns = 2, input_col_idx = Some 0,
          output_col_name = ''c'', output_col_idx = 2, overwrite = True, del_col = None \<rparr>
        (\<lambda>rows. Inr (Some ''new'')) [''x'', ''y''] [] \<noteq> Inl TypeError"
  using preproc_del_col_invariant [of "[''a'', ''b'']" "Some 0" "Some ''c''" None False
      "\<lparr> headers = [''a'', ''b''], num_of_columns = 2, input_col_idx = Some 0,
          output_col_name = ''c'', output_col_idx = 2, overwrite = True, del_col = None \<rparr>"
      "[''x'', ''y'']" "\<lambda>rows. Inr (Some ''new'')" "[]"]
  by (simp add: preproc_def)


section \<open>Properties of InputOutputsConvertor.process_record\<close>

lemma length_merged: "length (merged i olds v) = length olds"
  by (induction olds arbitrary: i) auto

lemma nth_merged:
  "j < length olds \<Longrightarrow> merged i olds v ! j = (if olds ! j = [] then v ! (i + j) else olds ! j)"
proof (induction olds arbitrary: i j)
  case Nil
  then show ?case by simp
next
  case (Cons a olds)
  then show ?case by (cases j) auto
qed

lemma fill_called:
  "i + length olds \<le> length v \<Longrightarrow>
   fill_new_values pc rows i olds (Some v) calls acc = Inr (acc @ merged i olds v, Some v, calls)"
proof (induction olds arbitrary: i acc)
  case Nil
  then show ?case by simp
next
  case (Cons a olds)
  then show ?case
    by (simp add: py_get_def norm_index_def)
qed

lemma fill_no_empty:
  "[] \<notin> set olds \<Longrightarrow>
   fill_new_values pc rows i olds None calls acc = Inr (acc @ olds, None, calls)"
  by (induction olds arbitrary: i acc) auto

lemma merged_no_empty: "[] \<notin> set olds \<Longrightarrow> merged i olds v = olds"
  by (induction olds arbitrary: i) auto

lemma fill_first_call:
  "[] \<in> set olds \<Longrightarrow> pc rows = Inr v \<Longrightarrow> i + length olds \<le> length v \<Longrightarrow>
   fill_new_values pc rows i olds None calls acc = Inr (acc @ merged i olds v, Some v, Suc calls)"
proof (induction olds arbitrary: i acc)
  case Nil
  then show ?case by simp
next
  case (Cons a olds)
  show ?case
  proof (cases "a = []")
    case True
    then show ?thesis
      using Cons.prems fill_called [of "Suc i" olds v pc rows "Suc calls" "acc @ [v ! i]"]
      by (simp add: py_get_def norm_index_def)
  next
    case False
    then show ?thesis
      using Cons.prems Cons.IH [of "Suc i" "acc @ [a]"] by simp
  qed
qed

lemma merged_map:
  "merged 0 olds v = map (\<lambda>i. if olds ! i = [] then v ! i else olds ! i) [0 ..< length olds]"
  by (rule nth_equalityI) (simp_all add: length_merged nth_merged)

lemma get_old_values_read:
  "\<forall>idx. Some idx \<in> set idxs \<longrightarrow> idx < length rows \<Longrightarrow>
   get_old_values rows idxs
     = Inr (map (\<lambda>idx. case idx of None \<Rightarrow> [] | Some k \<Rightarrow> rows ! k) idxs)"
proof (induction idxs)
  case Nil
  then show ?case by simp
next
  case (Cons a idxs)
  then show ?case by (cases a) auto
qed

lemma new_values_for_no_empty:
  "[] \<notin> set old_values \<Longrightarrow> new_values_for False pc rows old_values = Inr (old_values, 0)"
  using fill_no_empty [of old_values pc rows 0 0 "[]"] by (simp add: new_values_for_def)

lemma new_values_for_empty:
  "[] \<in> set old_values \<Longrightarrow> pc rows = Inr v \<Longrightarrow> length old_values \<le> length v \<Longrightarrow>
   new_values_for False pc rows old_values
     = Inr (map (\<lambda>i. if old_values ! i = [] then v ! i else old_values ! i) [0 ..< length old_values], 1)"
  using fill_first_call [of old_values pc rows v 0 0 "[]"]
  by (simp add: new_values_for_def merged_map)

lemma process_record_multi_new_values:
  "process_record_multi c ow pc rows out =
     (case get_old_values rows (old_col_indexes c) of
        Inl e \<Rightarrow> Inl e
      | Inr old_values \<Rightarrow>
          (case new_values_for ow pc rows old_values of
             Inl e \<Rightarrow> Inl e
           | Inr (new_values, calls) \<Rightarrow>
               (case reorder_multi rows (del_col_indexes c) (m_output_col_idx c) new_values of
                  Inl e \<Rightarrow> Inl e
                | Inr rows' \<Rightarrow> Inr (out @ [rows'], calls))))"
  unfolding process_record_multi_def new_values_for_def by (rule refl)

text \<open>
  C4. With overwrite false, for a row that has the columns \<open>old_col_indexes\<close> names: the
  destination slots' current values are the row's values at those columns (the empty
  string for a slot with no column). If no slot is empty, \<open>process_convertor\<close> is not
  invoked (the row is rebuilt from the current values, whatever the function would do);
  if some slot is empty and the function returns a vector covering the slots, it is
  invoked exactly once, its components fill the empty slots and every other slot keeps
  its current value.
\<close>

theorem process_record_multi_calls:
  assumes "\<forall>idx. Some idx \<in> set (old_col_indexes c) \<longrightarrow> idx < length rows"
    and "old_values = map (\<lambda>idx. case idx of None \<Rightarrow> [] | Some k \<Rightarrow> rows ! k) (old_col_indexes c)"
  shows "([] \<notin> set old_values \<longrightarrow>
            process_record_multi c False pc rows out =
              (case reorder_multi rows (del_col_indexes c) (m_output_col_idx c) old_values of
                 Inl e \<Rightarrow> Inl e
               | Inr rows' \<Rightarrow> Inr (out @ [rows'], 0)))
       \<and> ([] \<in> set old_values \<and> pc rows = Inr v \<and> length old_values \<le> length v \<longrightarrow>
            process_record_multi c False pc rows out =
              (case reorder_multi rows (del_col_indexes c) (m_output_col_idx c)
                      (map (\<lambda>i. if old_values ! i = [] then v ! i else old_values ! i)
                         [0 ..< length old_values]) of
                 Inl e \<Rightarrow> Inl e
               | Inr rows' \<Rightarrow> Inr (out @ [rows'], 1)))"
proof -
  have old: "get_old_values rows (old_col_indexes c) = Inr old_values"
    using assms by (simp add: get_old_values_read)
  show ?thesis
    using old
    by (auto simp: process_record_multi_new_values new_values_for_no_empty new_values_for_empty
        split: sum.splits)
qed

theorem process_record_multi_calls_witness:
  "process_record_multi
     \<lparr> m_headers = [''a'', ''b'', ''c''], m_input_col_idx = Some 0, m_output_col_idx = 1,
       output_col_names = [''b'', ''c''], old_col_indexes = [Some 1, Some 2],
       del_col_indexes = [Some 1, Some 1] \<rparr>
     False (\<lambda>rows. Inr [''p'', ''q'']) [''x'', [], ''z''] []
   = Inr ([[''x'', ''p'', ''z'']], 1)
   \<and> process_record_multi
     \<lparr> m_headers = [''a'', ''b'', ''c''], m_input_col_idx = Some 0, m_output_col_idx = 1,
       output_col_names = [''b'', ''c''], old_col_indexes = [Some 1, Some 2],
       del_col_indexes = [Some 1, Some 1] \<rparr>
     False (\<lambda>rows. Inl RuntimeError) [''x'', ''y'', ''z''] []
   = Inr ([[''x'', ''y'', ''z'']], 0)"
proof -
  let ?c = "\<lparr> m_headers = [''a'', ''b'', ''c''], m_input_col_idx = Some 0, m_output_col_idx = 1,
       output_col_names = [''b'', ''c''], old_col_indexes = [Some 1, Some 2],
       del_col_indexes = [Some 1, Some 1] \<rparr>"
  have one: "process_record_multi ?c False (\<lambda>rows. Inr [''p'', ''q'']) [''x'', [], ''z''] []
               = Inr ([[''x'', ''p'', ''z'']], 1)"
    using process_record_multi_calls [of ?c "[''x'', [], ''z'']" "[[], ''z'']"
        "\<lambda>rows. Inr [''p'', ''q'']" "[]" "[''p'', ''q'']"]
    by (simp add: reorder_multi_def del_at_def slice_pos_def upt_rec)
  have none: "process_record_multi ?c False (\<lambda>rows. Inl RuntimeError) [''x'', ''y'', ''z''] []
               = Inr ([[''x'', ''y'', ''z'']], 0)"
    using process_record_multi_calls [of ?c "[''x'', ''y'', ''z'']" "[''y'', ''z'']"
        "\<lambda>rows. Inl RuntimeError" "[]" "[]"]
    by (simp add: reorder_multi_def del_at_def slice_pos_def)
  show ?thesis
    using one none by simp
qed

section \<open>Properties of InputOutputsConvertor.preproc and reorder\<close>

lemma lower_after_Some: "map (lower_after d) (map Some ds) = map Some (map (low d) ds)"
  by (simp add: lower_after_def low_def)

lemma low_less_iff: "a \<noteq> d \<Longrightarrow> b \<noteq> d \<Longrightarrow> low d a < low d b \<longleftrightarrow> a < b"
  by (auto simp: low_def)

lemma low_inj: "a \<noteq> d \<Longrightarrow> b \<noteq> d \<Longrightarrow> low d a = low d b \<longleftrightarrow> a = b"
  by (auto simp: low_def)

lemma distinct_low: "distinct (d # ds) \<Longrightarrow> distinct (map (low d) ds)"
proof -
  assume a: "distinct (d # ds)"
  have "inj_on (low d) (set ds)"
  proof (rule inj_onI)
    fix x y assume "x \<in> set ds" "y \<in> set ds" "low d x = low d y"
    then show "x = y" using a low_inj [of x d y] by auto
  qed
  then show ?thesis using a by (simp add: distinct_map)
qed

lemma lower_after_comp: "lower_after d \<circ> Some = Some \<circ> low d"
  by (rule ext) (simp add: lower_after_def low_def)

lemma adjust_Some_Cons:
  "adjust_indexes (map Some (d # ds)) oi =
     (Some d # fst (adjust_indexes (map Some (map (low d) ds)) (if int d < oi then oi - 1 else oi)),
      snd (adjust_indexes (map Some (map (low d) ds)) (if int d < oi then oi - 1 else oi)))"
  by (simp add: lower_after_comp case_prod_beta)

lemma length_adjust: "length (fst (adjust_indexes ds oi)) = length ds"
  by (induction ds oi rule: adjust_indexes.induct) (auto split: prod.splits)

lemma count_low:
  assumes "d \<notin> set ds" "x \<noteq> d"
  shows "length (filter (\<lambda>e. e < low d x) (map (low d) ds)) = length (filter (\<lambda>e. e < x) ds)"
proof -
  have "filter (\<lambda>e. e < low d x) (map (low d) ds) = map (low d) (filter (\<lambda>e. e < x) ds)"
    using assms by (induction ds) (auto simp: low_less_iff)
  then show ?thesis by simp
qed

lemma adjust_effective:
  "distinct ds \<Longrightarrow> i < length ds \<Longrightarrow>
   fst (adjust_indexes (map Some ds) oi) ! i = Some (effective_index ds i)"
proof (induction "length ds" arbitrary: ds i oi)
  case 0
  then show ?case by simp
next
  case (Suc n)
  then obtain d ds' where ds: "ds = d # ds'"
    by (cases ds) auto
  show ?case
  proof (cases i)
    case 0
    then show ?thesis
      using ds by (simp add: adjust_Some_Cons effective_index_def del: adjust_indexes.simps list.map)
  next
    case (Suc j)
    have dd: "distinct (map (low d) ds')" and len: "n = length (map (low d) ds')" and j: "j < length (map (low d) ds')"
      using Suc.prems Suc.hyps(2) ds Suc distinct_low [of d ds'] by auto
    have x: "ds' ! j \<noteq> d" and dn: "d \<notin> set ds'"
      using Suc.prems ds Suc by auto
    have "fst (adjust_indexes (map Some ds) oi) ! i
            = Some (effective_index (map (low d) ds') j)"
      using Suc.hyps(1) [OF len dd j] ds Suc
      by (simp add: adjust_Some_Cons del: adjust_indexes.simps list.map)
    also have "effective_index (map (low d) ds') j = effective_index ds i"
    proof -
      have "d \<notin> set (take j ds')"
        using dn by (auto dest: in_set_takeD)
      then have c: "length (filter (\<lambda>e. e < low d (ds' ! j)) (map (low d) (take j ds')))
                  = length (filter (\<lambda>e. e < ds' ! j) (take j ds'))"
        using x by (rule count_low)
      show ?thesis
        using j c ds Suc x
        by (auto simp: effective_index_def take_map low_def)
    qed
    finally show ?thesis .
  qed
qed


lemma nths_cong_idx:
  "(\<And>i. i < length xs \<Longrightarrow> i \<in> A \<longleftrightarrow> i \<in> B) \<Longrightarrow> nths xs A = nths xs B"
proof (induction xs arbitrary: A B rule: rev_induct)
  case Nil
  then show ?case by simp
next
  case (snoc x xs)
  have "nths xs A = nths xs B"
    using snoc.prems by (intro snoc.IH) auto
  moreover have "length xs \<in> A \<longleftrightarrow> length xs \<in> B"
    using snoc.prems by auto
  ultimately show ?case
    by (simp add: nths_append)
qed

lemma nths_del_at:
  assumes "d \<notin> E" "d < length xs"
  shows "nths (del_at d xs) (- (low d ` E)) = nths xs (- insert d E)"
proof -
  have xs: "xs = take d xs @ xs ! d # drop (Suc d) xs"
    using assms(2) by (simp add: id_take_nth_drop)
  have l: "length (take d xs) = d"
    using assms(2) by simp
  have a: "nths (take d xs) (- (low d ` E)) = nths (take d xs) (- insert d E)"
  proof (rule nths_cong_idx)
    fix i assume "i < length (take d xs)"
    then have "i < d" by simp
    then show "i \<in> - (low d ` E) \<longleftrightarrow> i \<in> - insert d E"
      by (auto simp: low_def image_iff split: if_splits)
  qed
  have b1: "j + d \<in> low d ` E \<longleftrightarrow> Suc (j + d) \<in> E" for j
  proof
    assume "j + d \<in> low d ` E"
    then obtain e where e: "e \<in> E" "j + d = low d e"
      by auto
    show "Suc (j + d) \<in> E"
    proof (cases "d < e")
      case True
      then have "e = Suc (j + d)"
        using e(2) by (simp add: low_def)
      then show ?thesis using e(1) by simp
    next
      case False
      then have "e = d"
        using e(2) by (simp add: low_def)
      then show ?thesis using e(1) assms(1) by simp
    qed
  next
    assume a: "Suc (j + d) \<in> E"
    have "low d (Suc (j + d)) = j + d"
      by (simp add: low_def)
    then show "j + d \<in> low d ` E"
      using a by (metis imageI)
  qed
  have b: "{j. j + d \<in> - (low d ` E)} = {j. Suc (j + d) \<in> - insert d E}"
    using b1 by auto
  have "nths xs (- insert d E) =
          nths (take d xs) (- insert d E) @ nths (xs ! d # drop (Suc d) xs) {j. j + d \<in> - insert d E}"
    using assms(2) by (subst xs) (simp add: nths_append min_def del: append_take_drop_id)
  also have "nths (xs ! d # drop (Suc d) xs) {j. j + d \<in> - insert d E}
              = nths (drop (Suc d) xs) {j. Suc (j + d) \<in> - insert d E}"
    by (simp add: nths_Cons)
  finally have r: "nths xs (- insert d E) =
     nths (take d xs) (- insert d E) @ nths (drop (Suc d) xs) {j. Suc (j + d) \<in> - insert d E}" .
  have "nths (del_at d xs) (- (low d ` E)) =
          nths (take d xs) (- (low d ` E)) @ nths (drop (Suc d) xs) {j. j + d \<in> - (low d ` E)}"
    using assms(2) by (simp add: del_at_def nths_append min_def)
  then show ?thesis
    using a b r by simp
qed

lemma delete_all_adjust:
  "distinct ds \<Longrightarrow> \<forall>d \<in> set ds. d < length xs \<Longrightarrow>
   delete_all xs (fst (adjust_indexes (map Some ds) oi)) = Inr (nths xs (- set ds))"
proof (induction "length ds" arbitrary: ds xs oi)
  case 0
  then show ?case by (simp add: nths_all)
next
  case (Suc n)
  then obtain d ds' where ds: "ds = d # ds'"
    by (cases ds) auto
  have d: "d < length xs" "d \<notin> set ds'"
    using Suc.prems ds by auto
  have dd: "distinct (map (low d) ds')" and len: "n = length (map (low d) ds')"
    using Suc.prems Suc.hyps(2) ds distinct_low [of d ds'] by auto
  have bound: "\<forall>e \<in> set (map (low d) ds'). e < length (del_at d xs)"
  proof
    fix e assume "e \<in> set (map (low d) ds')"
    then obtain e' where e': "e' \<in> set ds'" "e = low d e'"
      by auto
    then have "e' \<noteq> d" "e' < length xs"
      using d(2) Suc.prems(2) ds by auto
    then show "e < length (del_at d xs)"
      using e'(2) d(1) by (auto simp: low_def length_del_at)
  qed
  have "delete_all xs (fst (adjust_indexes (map Some ds) oi))
          = delete_all (del_at d xs)
              (fst (adjust_indexes (map Some (map (low d) ds')) (if int d < oi then oi - 1 else oi)))"
    using d ds by (simp add: adjust_Some_Cons del: adjust_indexes.simps list.map)
  also have "\<dots> = Inr (nths (del_at d xs) (- set (map (low d) ds')))"
    using Suc.hyps(1) [OF len dd bound] .
  also have "nths (del_at d xs) (- set (map (low d) ds')) = nths xs (- set ds)"
    using nths_del_at [OF d(2) d(1)] ds by simp
  finally show ?case .
qed

lemma count_low_oi:
  assumes "d \<notin> set ds"
  shows "length (filter (\<lambda>e. int e < (if int d < oi then oi - 1 else oi)) (map (low d) ds))
           = length (filter (\<lambda>e. int e < oi) ds)"
proof -
  have "filter (\<lambda>e. int e < (if int d < oi then oi - 1 else oi)) (map (low d) ds)
          = map (low d) (filter (\<lambda>e. int e < oi) ds)"
    using assms by (induction ds) (auto simp: low_def)
  then show ?thesis by simp
qed

lemma adjust_output_idx:
  "distinct ds \<Longrightarrow>
   snd (adjust_indexes (map Some ds) oi) = oi - int (length (filter (\<lambda>e. int e < oi) ds))"
proof (induction "length ds" arbitrary: ds oi)
  case 0
  then show ?case by simp
next
  case (Suc n)
  then obtain d ds' where ds: "ds = d # ds'"
    by (cases ds) auto
  have dn: "d \<notin> set ds'"
    using Suc.prems ds by auto
  have dd: "distinct (map (low d) ds')" and len: "n = length (map (low d) ds')"
    using Suc.prems Suc.hyps(2) ds distinct_low [of d ds'] by auto
  let ?oi1 = "if int d < oi then oi - 1 else oi"
  have "snd (adjust_indexes (map Some ds) oi)
          = ?oi1 - int (length (filter (\<lambda>e. int e < ?oi1) (map (low d) ds')))"
    using Suc.hyps(1) [OF len dd, of ?oi1] ds
    by (simp add: adjust_Some_Cons del: adjust_indexes.simps list.map)
  also have "\<dots> = ?oi1 - int (length (filter (\<lambda>e. int e < oi) ds'))"
    using count_low_oi [OF dn, of oi] by simp
  also have "\<dots> = oi - int (length (filter (\<lambda>e. int e < oi) ds))"
    using ds by simp
  finally show ?case .
qed


lemma preproc_multi_fields:
  "old_col_indexes (preproc_multi hs p_in p_out names) = map (index_of hs) names"
  "del_col_indexes (preproc_multi hs p_in p_out names)
     = fst (adjust_indexes (map (index_of hs) names) (clamp_output_idx (length hs) p_out))"
  "m_output_col_idx (preproc_multi hs p_in p_out names)
     = snd (adjust_indexes (map (index_of hs) names) (clamp_output_idx (length hs) p_out))"
  "output_col_names (preproc_multi hs p_in p_out names) = names"
  by (simp_all add: preproc_multi_def clamp_output_idx_def Let_def case_prod_beta)

lemma index_of_positions:
  assumes "set names \<subseteq> set hs"
  shows "\<exists>olds. map (index_of hs) names = map Some olds
          \<and> length olds = length names
          \<and> (\<forall>i < length names. olds ! i < length hs \<and> hs ! (olds ! i) = names ! i)"
  using assms
proof (induction names)
  case Nil
  then show ?case by simp
next
  case (Cons n names)
  then obtain olds where olds: "map (index_of hs) names = map Some olds"
    "length olds = length names"
    "\<forall>i < length names. olds ! i < length hs \<and> hs ! (olds ! i) = names ! i"
    by auto
  from Cons.prems obtain k where k: "index_of hs n = Some k"
    using index_of_None [of hs n] by (cases "index_of hs n") auto
  then have kk: "k < length hs \<and> hs ! k = n"
    by (rule index_of_Some)
  have "\<forall>i < length (n # names). (k # olds) ! i < length hs \<and> hs ! ((k # olds) ! i) = (n # names) ! i"
    using olds(3) kk by (auto simp: nth_Cons split: nat.splits)
  then show ?case
    using olds(1,2) k by (intro exI [of _ "k # olds"]) simp
qed

lemma positions_distinct:
  assumes "distinct names" "length olds = length names"
    "\<forall>i < length names. hs ! (olds ! i) = names ! i"
  shows "distinct olds"
proof -
  have "olds ! i \<noteq> olds ! j" if "i < length olds" "j < length olds" "i \<noteq> j" for i j
  proof
    assume "olds ! i = olds ! j"
    then have "names ! i = names ! j"
      using assms(2,3) that by metis
    then show False
      using assms(1,2) that by (simp add: nth_eq_iff_index_eq)
  qed
  then show ?thesis
    by (simp add: distinct_conv_nth)
qed

lemma positions_set:
  assumes "map (index_of hs) names = map Some olds" "map (index_of hs) names' = map Some olds'"
    "set names' = set names"
  shows "set olds' = set olds"
proof -
  have "Some ` set olds' = Some ` set olds"
    using assms by (metis image_set)
  then show ?thesis
    by (simp add: inj_image_eq_iff)
qed

lemma length_nths_same:
  "length xs = length ys \<Longrightarrow> length (nths xs A) = length (nths ys A)"
  by (simp add: length_nths)

lemma get_old_values_positions:
  "\<forall>e \<in> set olds. e < length rows \<Longrightarrow>
   get_old_values rows (map Some olds) = Inr (map (\<lambda>k. rows ! k) olds)"
  using get_old_values_read [of "map Some olds" rows] by (auto simp: comp_def)

text \<open>
  C2 (as amended). For output column names that are distinct and all among the headers:
  the delete index \<open>preproc\<close> computes for slot \<open>i\<close> is the slot's header index minus the
  number of earlier slots whose header index was smaller. Consequently, for the names
  listed in any permutation order, the insertion index is the same and the deletions
  leave the same columns (those at the header positions of no name).
  \<open>process_header\<close> outputs that remainder of the header row with the names inserted as
  one block at the insertion index, in the order they were listed; \<open>process_record\<close>
  outputs that remainder of the row with the row's new values inserted at the same index,
  the new values being computed slot by slot from the row's values at the names'
  header positions, taken in the order the names were listed. So two orders give final
  header rows and data rows that agree outside the inserted block, not the same rows.
\<close>

theorem multi_delete_order:
  assumes "distinct names" and "set names \<subseteq> set hs" and "mset names' = mset names"
    and "length row = length hs"
    and "c = preproc_multi hs p_in p_out names" and "c' = preproc_multi hs p_in p_out names'"
  shows "\<exists>olds olds' k.
           old_col_indexes c = map Some olds \<and> length olds = length names
         \<and> old_col_indexes c' = map Some olds' \<and> length olds' = length names'
         \<and> (\<forall>i < length names. hs ! (olds ! i) = names ! i
               \<and> del_col_indexes c ! i = Some (effective_index olds i))
         \<and> (\<forall>i < length names'. hs ! (olds' ! i) = names' ! i
               \<and> del_col_indexes c' ! i = Some (effective_index olds' i))
         \<and> set olds' = set olds
         \<and> m_output_col_idx c' = m_output_col_idx c
         \<and> k = slice_pos (length hs - length names) (m_output_col_idx c)
         \<and> process_header_multi c hs out
             = Inr (out @ [take k (nths hs (- set olds)) @ names @ drop k (nths hs (- set olds))])
         \<and> process_header_multi c' hs out
             = Inr (out @ [take k (nths hs (- set olds)) @ names' @ drop k (nths hs (- set olds))])
         \<and> process_record_multi c ow pc row out
             = (case new_values_for ow pc row (map (\<lambda>k. row ! k) olds) of
                  Inl e \<Rightarrow> Inl e
                | Inr (new_values, calls) \<Rightarrow>
                    Inr (out @ [take k (nths row (- set olds)) @ new_values
                                 @ drop k (nths row (- set olds))], calls))
         \<and> process_record_multi c' ow pc row out
             = (case new_values_for ow pc row (map (\<lambda>k. row ! k) olds') of
                  Inl e \<Rightarrow> Inl e
                | Inr (new_values, calls) \<Rightarrow>
                    Inr (out @ [take k (nths row (- set olds)) @ new_values
                                 @ drop k (nths row (- set olds))], calls))"
proof -
  let ?oi = "clamp_output_idx (length hs) p_out"
  have sets: "set names' = set names"
    using assms(3) by (rule mset_eq_setD)
  have dist': "distinct names'"
    using assms(1,3) by (metis mset_eq_imp_distinct_iff)
  have len': "length names' = length names"
    using assms(3) by (rule mset_eq_length)
  obtain olds where olds: "map (index_of hs) names = map Some olds" "length olds = length names"
    "\<forall>i < length names. olds ! i < length hs \<and> hs ! (olds ! i) = names ! i"
    using index_of_positions [OF assms(2)] by blast
  obtain olds' where olds': "map (index_of hs) names' = map Some olds'" "length olds' = length names'"
    "\<forall>i < length names'. olds' ! i < length hs \<and> hs ! (olds' ! i) = names' ! i"
    using index_of_positions [of names' hs] assms(2) sets by blast
  have d: "distinct olds"
    using positions_distinct [OF assms(1) olds(2)] olds(3) by blast
  have d': "distinct olds'"
    using positions_distinct [OF dist' olds'(2)] olds'(3) by blast
  have ss: "set olds' = set olds"
    using olds(1) olds'(1) sets by (rule positions_set)
  have bh: "\<forall>e \<in> set olds. e < length hs"
    using olds(2,3) by (auto simp: in_set_conv_nth)
  have b: "\<forall>e \<in> set olds. e < length row"
    using bh assms(4) by simp
  have b': "\<forall>e \<in> set olds'. e < length row"
    using b ss by simp
  let ?hrest = "nths hs (- set olds)"
  let ?rest = "nths row (- set olds)"
  have lrest: "length ?hrest = length hs - length names"
  proof -
    have "{i. i < length hs \<and> i \<in> - set olds} = {..< length hs} - set olds"
      by auto
    moreover have "card ({..< length hs} - set olds) = length hs - card (set olds)"
      using bh by (subst card_Diff_subset) auto
    moreover have "card (set olds) = length names"
      using d olds(2) by (simp add: distinct_card)
    ultimately show ?thesis
      by (simp add: length_nths)
  qed
  have lrow: "length ?rest = length hs - length names"
    using lrest length_nths_same [OF assms(4), of "- set olds"] by simp
  have f1: "old_col_indexes c = map Some olds"
    using olds(1) assms(5) by (simp add: preproc_multi_fields)
  have f1': "old_col_indexes c' = map Some olds'"
    using olds'(1) assms(6) by (simp add: preproc_multi_fields)
  have f2: "\<forall>i < length names. hs ! (olds ! i) = names ! i
               \<and> del_col_indexes c ! i = Some (effective_index olds i)"
    using olds(1,2,3) adjust_effective [OF d, of _ ?oi] assms(5)
    by (simp add: preproc_multi_fields)
  have f2': "\<forall>i < length names'. hs ! (olds' ! i) = names' ! i
               \<and> del_col_indexes c' ! i = Some (effective_index olds' i)"
    using olds'(1,2,3) adjust_effective [OF d', of _ ?oi] assms(6)
    by (simp add: preproc_multi_fields)
  have oi: "m_output_col_idx c = ?oi - int (length (filter (\<lambda>e. int e < ?oi) olds))"
    using olds(1) adjust_output_idx [OF d, of ?oi] assms(5) by (simp add: preproc_multi_fields)
  have oi': "m_output_col_idx c' = ?oi - int (length (filter (\<lambda>e. int e < ?oi) olds'))"
    using olds'(1) adjust_output_idx [OF d', of ?oi] assms(6) by (simp add: preproc_multi_fields)
  have f3: "m_output_col_idx c' = m_output_col_idx c"
    using oi oi' ss by (simp add: distinct_length_filter d d')
  let ?k = "slice_pos (length hs - length names) (m_output_col_idx c)"
  have dh: "delete_all hs (del_col_indexes c) = Inr ?hrest"
    using olds(1) delete_all_adjust [OF d bh, of ?oi] assms(5) by (simp add: preproc_multi_fields)
  have dh': "delete_all hs (del_col_indexes c') = Inr ?hrest"
    using olds'(1) delete_all_adjust [OF d', of hs ?oi] bh ss assms(6)
    by (simp add: preproc_multi_fields)
  have dr: "delete_all row (del_col_indexes c) = Inr ?rest"
    using olds(1) delete_all_adjust [OF d b, of ?oi] assms(5) by (simp add: preproc_multi_fields)
  have dr': "delete_all row (del_col_indexes c') = Inr ?rest"
    using olds'(1) delete_all_adjust [OF d' b', of ?oi] ss assms(6)
    by (simp add: preproc_multi_fields)
  have n: "output_col_names c = names" "output_col_names c' = names'"
    using assms(5,6) by (simp_all add: preproc_multi_fields)
  have h: "process_header_multi c hs out = Inr (out @ [take ?k ?hrest @ names @ drop ?k ?hrest])"
    using dh lrest n by (simp add: process_header_multi_def reorder_multi_def)
  have h': "process_header_multi c' hs out = Inr (out @ [take ?k ?hrest @ names' @ drop ?k ?hrest])"
    using dh' lrest n f3 by (simp add: process_header_multi_def reorder_multi_def)
  have ro: "reorder_multi row (del_col_indexes c) (m_output_col_idx c) nv
              = Inr (take ?k ?rest @ nv @ drop ?k ?rest)" for nv
    using dr lrow by (simp add: reorder_multi_def)
  have ro': "reorder_multi row (del_col_indexes c') (m_output_col_idx c') nv
              = Inr (take ?k ?rest @ nv @ drop ?k ?rest)" for nv
    using dr' lrow f3 by (simp add: reorder_multi_def)
  have r: "process_record_multi c ow pc row out
             = (case new_values_for ow pc row (map (\<lambda>k. row ! k) olds) of
                  Inl e \<Rightarrow> Inl e
                | Inr (new_values, calls) \<Rightarrow>
                    Inr (out @ [take ?k ?rest @ new_values @ drop ?k ?rest], calls))"
    using f1 get_old_values_positions [OF b] ro
    by (auto simp: process_record_multi_new_values split: sum.splits)
  have r': "process_record_multi c' ow pc row out
             = (case new_values_for ow pc row (map (\<lambda>k. row ! k) olds') of
                  Inl e \<Rightarrow> Inl e
                | Inr (new_values, calls) \<Rightarrow>
                    Inr (out @ [take ?k ?rest @ new_values @ drop ?k ?rest], calls))"
    using f1' get_old_values_positions [OF b'] ro'
    by (auto simp: process_record_multi_new_values split: sum.splits)
  show ?thesis
    using f1 olds(2) f1' olds'(2) f2 f2' ss f3 h h' r r'
    by (intro exI [of _ olds] exI [of _ olds'] exI [of _ ?k]) simp
qed

theorem multi_delete_order_witness:
  "distinct [''a'', ''b''] \<and> set [''a'', ''b''] \<subseteq> set [''a'', ''b'', ''c'']
   \<and> mset [''b'', ''a''] = mset [''a'', ''b'']
   \<and> length [''1'', ''2'', ''3''] = length [''a'', ''b'', ''c'']
   \<and> (\<exists>k rest.
         process_header_multi (preproc_multi [''a'', ''b'', ''c''] (Some 0) None [''a'', ''b''])
             [''a'', ''b'', ''c''] []
           = Inr [take k rest @ [''a'', ''b''] @ drop k rest]
       \<and> process_header_multi (preproc_multi [''a'', ''b'', ''c''] (Some 0) None [''b'', ''a''])
             [''a'', ''b'', ''c''] []
           = Inr [take k rest @ [''b'', ''a''] @ drop k rest])
   \<and> m_output_col_idx (preproc_multi [''a'', ''b'', ''c''] (Some 0) None [''b'', ''a''])
       = m_output_col_idx (preproc_multi [''a'', ''b'', ''c''] (Some 0) None [''a'', ''b''])"
proof -
  have h1: "distinct [''a'', ''b'']"
    by simp
  have h2: "set [''a'', ''b''] \<subseteq> set [''a'', ''b'', ''c'']"
    by simp
  have h3: "mset [''b'', ''a''] = mset [''a'', ''b'']"
    by simp
  have h4: "length [''1'', ''2'', ''3''] = length [''a'', ''b'', ''c'']"
    by simp
  note t = multi_delete_order [OF h1 h2 h3 h4 refl refl, of "Some 0" None "[]" False
      "\<lambda>rows. Inr [''p'', ''q'']"]
  have a: "\<exists>k rest.
         process_header_multi (preproc_multi [''a'', ''b'', ''c''] (Some 0) None [''a'', ''b''])
             [''a'', ''b'', ''c''] []
           = Inr [take k rest @ [''a'', ''b''] @ drop k rest]
       \<and> process_header_multi (preproc_multi [''a'', ''b'', ''c''] (Some 0) None [''b'', ''a''])
             [''a'', ''b'', ''c''] []
           = Inr [take k rest @ [''b'', ''a''] @ drop k rest]"
    using t by (metis append_Nil)
  have b: "m_output_col_idx (preproc_multi [''a'', ''b'', ''c''] (Some 0) None [''b'', ''a''])
       = m_output_col_idx (preproc_multi [''a'', ''b'', ''c''] (Some 0) None [''a'', ''b''])"
    using t by blast
  show ?thesis
    using h1 h2 h3 h4 a b by blast
qed

text \<open>
  The claim as the specification words it fails: the final header row depends on the
  order in which the output names are listed.
\<close>

theorem multi_delete_order_counterexample:
  "process_header_multi (preproc_multi [''a'', ''b'', ''c''] (Some 0) None [''a'', ''b''])
     [''a'', ''b'', ''c''] []
   \<noteq> process_header_multi (preproc_multi [''a'', ''b'', ''c''] (Some 0) None [''b'', ''a''])
     [''a'', ''b'', ''c''] []"
  by (simp add: process_header_multi_def preproc_multi_def reorder_multi_def lower_after_def
      del_at_def slice_pos_def Let_def)

section \<open>Properties of the execution context\<close>

lemma contains_iff: "contains declared name \<longleftrightarrow> name \<in> param_name ` set declared"
  by (auto simp: contains_def filter_empty_conv)

lemma first_missing_Some_iff:
  "(\<exists>p. first_missing declared ps = Some p)
     \<longleftrightarrow> (\<exists>p \<in> set declared. param_required p \<and> param_name p \<notin> set (map fst ps))"
  unfolding first_missing_def
  using find_None_iff [of "\<lambda>p. param_required p \<and> param_name p \<notin> set (map fst ps)" declared]
  by (cases "find (\<lambda>p. param_required p \<and> param_name p \<notin> set (map fst ps)) declared") auto

lemma getitem_declared:
  assumes "p \<in> set declared" "distinct (map param_name declared)"
  shows "getitem declared (param_name p) = Some p"
proof -
  have "\<exists>q. getitem declared (param_name p) = Some q \<and> q \<in> set declared \<and> param_name q = param_name p"
    using assms(1)
    by (cases "getitem declared (param_name p)")
      (auto simp: getitem_def find_None_iff find_Some_iff)
  then obtain q where q: "getitem declared (param_name p) = Some q" "q \<in> set declared"
    "param_name q = param_name p"
    by blast
  have "q = p"
    using assms q(2,3) by (auto simp: distinct_map inj_on_def)
  then show ?thesis
    using q(1) by simp
qed

text \<open>
  C5 (as amended). Constructing a context whose parameter map lacks a required declared
  parameter raises ValueError, and no row of the input has been read; when no required
  parameter is missing the construction succeeds whatever other keys were supplied,
  logging one warning for each supplied key that is the name of no declared parameter.
  \<open>get_param\<close> raises ValueError for every name that is the name of no declared
  parameter, whatever the map supplies. On a constructed context, for a declared
  parameter of any class but CollectionParam whose name is absent from the supplied
  map, \<open>get_param\<close> returns the parameter's default value and logs nothing. (The names
  of a parameter set are distinct: \<open>ParamSet.append\<close> refuses a second descriptor of a
  name.)
\<close>

theorem context_parameter_contract:
  "((\<exists>p \<in> set declared. param_required p \<and> param_name p \<notin> fst ` set ps)
      \<longrightarrow> fst (Context_init declared ps w) = Inl ValueError
          \<and> input_rows_read (snd (Context_init declared ps w)) = input_rows_read w)
   \<and> (\<not> (\<exists>p \<in> set declared. param_required p \<and> param_name p \<notin> fst ` set ps)
      \<longrightarrow> Context_init declared ps w =
            (Inr \<lparr> declared_params = declared, convertor_params = ps \<rparr>,
             w\<lparr> log_entries := log_entries w
                   @ map LogWarning (filter (\<lambda>key. key \<notin> param_name ` set declared) (map fst ps)) \<rparr>))
   \<and> (name \<notin> param_name ` set declared
      \<longrightarrow> fst (get_param conv \<lparr> declared_params = declared, convertor_params = ps' \<rparr> name w')
            = Inl ValueError)
   \<and> (fst (Context_init declared ps w) = Inr ctx \<and> p \<in> set declared
        \<and> distinct (map param_name declared)
        \<and> param_name p \<notin> fst ` set ps \<and> param_class p \<noteq> CollectionParam
      \<longrightarrow> get_param conv ctx (param_name p) w' = (Inr (param_default_value p), w'))"
proof -
  have f1: "fst (Context_init declared ps w) = Inl ValueError
          \<and> input_rows_read (snd (Context_init declared ps w)) = input_rows_read w"
    if h: "\<exists>p \<in> set declared. param_required p \<and> param_name p \<notin> fst ` set ps"
  proof -
    obtain q where "first_missing declared ps = Some q"
      using h first_missing_Some_iff [of declared ps] by auto
    then show ?thesis
      by (simp add: Context_init_def Let_def)
  qed
  have f2: "Context_init declared ps w =
            (Inr \<lparr> declared_params = declared, convertor_params = ps \<rparr>,
             w\<lparr> log_entries := log_entries w
                   @ map LogWarning (filter (\<lambda>key. key \<notin> param_name ` set declared) (map fst ps)) \<rparr>)"
    if h: "\<not> (\<exists>p \<in> set declared. param_required p \<and> param_name p \<notin> fst ` set ps)"
  proof -
    have "first_missing declared ps = None"
      using h first_missing_Some_iff [of declared ps] by (cases "first_missing declared ps") auto
    then show ?thesis
      by (simp add: Context_init_def Let_def warn_unknown_def contains_iff)
  qed
  have f3: "fst (get_param conv \<lparr> declared_params = declared, convertor_params = ps' \<rparr> name w')
              = Inl ValueError"
    if "name \<notin> param_name ` set declared"
    using that by (simp add: get_param_def contains_iff)
  have f4: "get_param conv ctx (param_name p) w' = (Inr (param_default_value p), w')"
    if a: "fst (Context_init declared ps w) = Inr ctx \<and> p \<in> set declared
        \<and> distinct (map param_name declared)
        \<and> param_name p \<notin> fst ` set ps \<and> param_class p \<noteq> CollectionParam"
  proof -
    have none: "first_missing declared ps = None"
      using a by (cases "first_missing declared ps") (auto simp: Context_init_def Let_def)
    with a have ctx: "ctx = \<lparr> declared_params = declared, convertor_params = ps \<rparr>"
      by (auto simp: Context_init_def Let_def)
    have c: "contains declared (param_name p)"
      using a by (auto simp: contains_iff)
    have g: "getitem declared (param_name p) = Some p"
      using a by (simp add: getitem_declared)
    have nr: "\<not> param_required p"
      using none a by (auto simp: first_missing_def find_None_iff)
    have m: "map_of ps (param_name p) = None"
      using a by (simp add: map_of_eq_None_iff)
    show ?thesis
      using a c g nr m ctx
      by (simp add: get_param_def get_value_def)
  qed
  show ?thesis
    using f1 f2 f3 f4 by blast
qed

text \<open>
  The witness: a declared set with a required and an optional parameter. Without the
  required one the constructor raises; with it and an unknown key the constructor
  succeeds and warns about the key; the unknown key cannot be read; the optional
  parameter, not supplied, reads as its default.
\<close>

theorem context_parameter_contract_witness:
  "fst (Context_init
          [\<lparr> param_name = ''input_col_idx'', param_class = InputAttributeParam,
              param_required = True, param_default_value = PNone \<rparr>,
           \<lparr> param_name = ''overwrite'', param_class = BooleanParam,
              param_required = False, param_default_value = PBool True \<rparr>]
          [(''overwrite'', PBool False)] \<lparr> log_entries = [], input_rows_read = 0 \<rparr>) = Inl ValueError
   \<and> Context_init
          [\<lparr> param_name = ''input_col_idx'', param_class = InputAttributeParam,
              param_required = True, param_default_value = PNone \<rparr>,
           \<lparr> param_name = ''overwrite'', param_class = BooleanParam,
              param_required = False, param_default_value = PBool True \<rparr>]
          [(''input_col_idx'', PInt 0), (''colour'', PStr ''red'')]
          \<lparr> log_entries = [], input_rows_read = 0 \<rparr>
       = (Inr \<lparr> declared_params =
                  [\<lparr> param_name = ''input_col_idx'', param_class = InputAttributeParam,
                      param_required = True, param_default_value = PNone \<rparr>,
                   \<lparr> param_name = ''overwrite'', param_class = BooleanParam,
                      param_required = False, param_default_value = PBool True \<rparr>],
                convertor_params = [(''input_col_idx'', PInt 0), (''colour'', PStr ''red'')] \<rparr>,
          \<lparr> log_entries = [LogWarning ''colour''], input_rows_read = 0 \<rparr>)
   \<and> fst (get_param (\<lambda>p v. Inr v)
        \<lparr> declared_params =
            [\<lparr> param_name = ''input_col_idx'', param_class = InputAttributeParam,
                param_required = True, param_default_value = PNone \<rparr>,
             \<lparr> param_name = ''overwrite'', param_class = BooleanParam,
                param_required = False, param_default_value = PBool True \<rparr>],
          convertor_params = [(''input_col_idx'', PInt 0), (''colour'', PStr ''red'')] \<rparr>
        ''colour'' \<lparr> log_entries = [], input_rows_read = 1 \<rparr>) = Inl ValueError
   \<and> get_param (\<lambda>p v. Inr v)
        \<lparr> declared_params =
            [\<lparr> param_name = ''input_col_idx'', param_class = InputAttributeParam,
                param_required = True, param_default_value = PNone \<rparr>,
             \<lparr> param_name = ''overwrite'', param_class = BooleanParam,
                param_required = False, param_default_value = PBool True \<rparr>],
          convertor_params = [(''input_col_idx'', PInt 0), (''colour'', PStr ''red'')] \<rparr>
        ''overwrite'' \<lparr> log_entries = [], input_rows_read = 1 \<rparr>
      = (Inr (PBool True), \<lparr> log_entries = [], input_rows_read = 1 \<rparr>)"
proof -
  let ?input = "\<lparr> param_name = ''input_col_idx'', param_class = InputAttributeParam,
              param_required = True, param_default_value = PNone \<rparr>"
  let ?over = "\<lparr> param_name = ''overwrite'', param_class = BooleanParam,
              param_required = False, param_default_value = PBool True \<rparr>"
  let ?w0 = "\<lparr> log_entries = [], input_rows_read = 0 \<rparr>"
  let ?w1 = "\<lparr> log_entries = [], input_rows_read = 1 \<rparr>"
  let ?good = "[(''input_col_idx'', PInt 0), (''colour'', PStr ''red'')]"
  let ?ctx = "\<lparr> declared_params = [?input, ?over], convertor_params = ?good \<rparr>"
  have missing: "fst (Context_init [?input, ?over] [(''overwrite'', PBool False)] ?w0) = Inl ValueError"
    using context_parameter_contract [of "[?input, ?over]" "[(''overwrite'', PBool False)]" ?w0]
    by simp
  have built: "Context_init [?input, ?over] ?good ?w0
                 = (Inr ?ctx, \<lparr> log_entries = [LogWarning ''colour''], input_rows_read = 0 \<rparr>)"
    using context_parameter_contract [of "[?input, ?over]" ?good ?w0]
    by simp
  have unknown: "fst (get_param (\<lambda>p v. Inr v) ?ctx ''colour'' ?w1) = Inl ValueError"
    using context_parameter_contract [of "[?input, ?over]" ?good ?w0 "''colour''" "\<lambda>p v. Inr v"
        ?good ?w1]
    by simp
  have absent: "get_param (\<lambda>p v. Inr v) ?ctx ''overwrite'' ?w1 = (Inr (PBool True), ?w1)"
    using context_parameter_contract [of "[?input, ?over]" ?good ?w0 "''x''" "\<lambda>p v. Inr v"
        ?good ?w1 ?ctx ?over] built
    by simp
  show ?thesis
    using missing built unknown absent by simp
qed

text \<open>
  The claim as the specification words it fails for a declared CollectionParam: the
  context is constructed, the name is declared and absent from the supplied map, and
  \<open>get_param\<close> raises instead of returning the default value.
\<close>

theorem context_default_counterexample:
  "Context_init
      [\<lparr> param_name = ''table'', param_class = CollectionParam,
          param_required = False, param_default_value = PStr ''default'' \<rparr>]
      [] \<lparr> log_entries = [], input_rows_read = 0 \<rparr>
     = (Inr \<lparr> declared_params =
                [\<lparr> param_name = ''table'', param_class = CollectionParam,
                    param_required = False, param_default_value = PStr ''default'' \<rparr>],
              convertor_params = [] \<rparr>,
        \<lparr> log_entries = [], input_rows_read = 0 \<rparr>)
   \<and> fst (get_param (\<lambda>p v. Inr v)
            \<lparr> declared_params =
                [\<lparr> param_name = ''table'', param_class = CollectionParam,
                    param_required = False, param_default_value = PStr ''default'' \<rparr>],
              convertor_params = [] \<rparr>
            ''table'' \<lparr> log_entries = [], input_rows_read = 0 \<rparr>)
       = Inl AttributeError"
  by (simp add: Context_init_def first_missing_def warn_unknown_def get_param_def contains_def
      getitem_def get_value_def)

section \<open>Table.convert on the error path\<close>

text \<open>
  C9. Called without an output destination, with a convertor whose \<open>process\<close> raises
  RuntimeError after writing one row: the error is raised again, and the temporary
  file is still there with the row in it. By the time of the test \<open>output is None\<close> the
  variable holds the output collection, so the branch that removes the file is never
  taken.
\<close>

theorem convert_error_keeps_temporary_file:
  "convert [] ''/tmp/table_x'' True None ([[''a'', ''b'']], Some RuntimeError) PyNone
     = (Inl RuntimeError, [(''/tmp/table_x'', [[''a'', ''b'']])])"
  by (simp add: convert_def open_w_def write_rows_def os_remove_def)

end
